theory Spec2Isabelle
  imports Main "HOL-Library.Sublist"
begin

section \<open>JavaScript values\<close>

text \<open>
  The values \<open>constants.js\<close> handles: a model name handed in by a caller, and the fields of
  the configuration object loaded from \<open>config.json\<close>. Numbers are the integers (the knobs
  are counts, milliseconds and a port); an object is the list of its own properties.
\<close>

datatype jsval =
    JUndefined
  | JNull
  | JBool bool
  | JNum int
  | JStr string
  | JArr "jsval list"
  | JObj "(string \<times> jsval) list"

datatype error = TypeError

text \<open>Truthiness: \<open>undefined\<close>, \<open>null\<close>, \<open>false\<close>, \<open>0\<close> and \<open>''\<close> are falsy.\<close>

fun truthy :: "jsval \<Rightarrow> bool" where
  "truthy JUndefined = False"
| "truthy JNull = False"
| "truthy (JBool b) = b"
| "truthy (JNum n) = (n \<noteq> 0)"
| "truthy (JStr s) = (s \<noteq> [])"
| "truthy (JArr xs) = True"
| "truthy (JObj ps) = True"

text \<open>\<open>a || b\<close>: the left operand when it is truthy, the right operand otherwise.\<close>

definition js_or :: "jsval \<Rightarrow> jsval \<Rightarrow> jsval" where
  "js_or a b = (if truthy a then a else b)"

text \<open>
  \<open>config?.key\<close>: \<open>undefined\<close> when \<open>config\<close> is \<open>null\<close> or \<open>undefined\<close>, the property
  otherwise, which is \<open>undefined\<close> when the object has none of that name. None of the keys
  read here is a property of a prototype, so a primitive or an array has none of them.
\<close>

fun opt_member :: "jsval \<Rightarrow> string \<Rightarrow> jsval" where
  "opt_member (JObj ps) key = (case map_of ps key of Some v \<Rightarrow> v | None \<Rightarrow> JUndefined)"
| "opt_member v key = JUndefined"

section \<open>Strings\<close>

text \<open>
  A JavaScript string is modelled by the list of its UTF-8 bytes. The patterns searched
  for and the characters the regular expression reads are all ASCII, and an ASCII byte of
  a UTF-8 string is always a character of its own, so searching the bytes finds exactly
  what searching the UTF-16 code units finds.

  \<open>String.prototype.toLowerCase\<close> maps \<open>A\<close> to \<open>Z\<close> onto \<open>a\<close> to \<open>z\<close>; on a string of
  ASCII characters that is all it does. On a string with a character outside ASCII it is
  the lower-casing of the Unicode standard (its case tables and special casing, under
  which U+212A becomes \<open>k\<close> and U+0130 becomes \<open>i\<close> and U+0307). Those tables are not
  part of the program: the lower-casing of such strings is the parameter \<open>unicodeLower\<close>
  of every definition that lower-cases, and every statement holds whatever it is. On a
  name of ASCII characters it plays no part; an example at such a name is stated with the
  identity in its place.
\<close>

definition isAscii :: "char \<Rightarrow> bool" where
  "isAscii c = (\<not> digit7 c)"

definition toLowerChar :: "char \<Rightarrow> char" where
  "toLowerChar c =
     (case map_of (zip ''ABCDEFGHIJKLMNOPQRSTUVWXYZ'' ''abcdefghijklmnopqrstuvwxyz'') c of
        Some l \<Rightarrow> l
      | None \<Rightarrow> c)"

definition toLowerCase :: "(string \<Rightarrow> string) \<Rightarrow> string \<Rightarrow> string" where
  "toLowerCase unicodeLower s =
     (if list_all isAscii s then map toLowerChar s else unicodeLower s)"

text \<open>\<open>s.includes(pat)\<close>: \<open>pat\<close> occurs in \<open>s\<close> at some position.\<close>

fun includesStr :: "string \<Rightarrow> string \<Rightarrow> bool" where
  "includesStr [] pat = (pat = [])"
| "includesStr (c # cs) pat = (prefix pat (c # cs) \<or> includesStr cs pat)"

definition isDigit :: "char \<Rightarrow> bool" where
  "isDigit c = (c \<in> set ''0123456789'')"

definition digitVal :: "char \<Rightarrow> nat" where
  "digitVal c = of_char c - 48"

text \<open>
  \<open>parseInt(s, 10)\<close> for a string that starts with neither white space nor a sign, which
  is all the capture of \<open>\d+\<close> can be: the value of the leading run of decimal digits, and
  \<open>NaN\<close> (here \<open>None\<close>) when there is none. The result is only compared with 3, so rounding
  of a long run of digits to a double makes no difference.
\<close>

definition parseInt :: "string \<Rightarrow> nat option" where
  "parseInt s =
     (let ds = takeWhile isDigit s
      in if ds = [] then None else Some (foldl (\<lambda>n c. 10 * n + digitVal c) 0 ds))"

text \<open>
  \<open>s.match(/gemini-(\d+)/)\<close>, reduced to what the caller reads: capture group 1 of the
  leftmost match, or \<open>None\<close> for \<open>null\<close>. The expression is tried at each position from
  the left; \<open>\d+\<close> is greedy and takes the whole run of digits.
\<close>

fun matchGeminiVersion :: "string \<Rightarrow> string option" where
  "matchGeminiVersion [] = None"
| "matchGeminiVersion (c # cs) =
     (if prefix ''gemini-'' (c # cs) \<and> takeWhile isDigit (drop 7 (c # cs)) \<noteq> []
      then Some (takeWhile isDigit (drop 7 (c # cs)))
      else matchGeminiVersion cs)"

text \<open>
  The test the regular expression makes at a position: the string from there on starts
  with \<open>gemini-\<close> and at least one decimal digit.
\<close>

definition versionMarkerAt :: "string \<Rightarrow> bool" where
  "versionMarkerAt s = (prefix ''gemini-'' s \<and> takeWhile isDigit (drop 7 s) \<noteq> [])"

section \<open>Model classifier\<close>

text \<open>
  \<open>(modelName || '').toLowerCase()\<close>, the first line of both classifiers. A truthy value
  that is not a string has no \<open>toLowerCase\<close> method: the call throws a TypeError.
\<close>

definition lowerName :: "(string \<Rightarrow> string) \<Rightarrow> jsval \<Rightarrow> error + string" where
  "lowerName unicodeLower modelName =
     (case js_or modelName (JStr []) of
        JStr s \<Rightarrow> Inr (toLowerCase unicodeLower s)
      | _ \<Rightarrow> Inl TypeError)"

definition getModelFamily :: "(string \<Rightarrow> string) \<Rightarrow> jsval \<Rightarrow> error + string" where
  "getModelFamily unicodeLower modelName =
     (case lowerName unicodeLower modelName of
        Inl e \<Rightarrow> Inl e
      | Inr lower \<Rightarrow>
          if includesStr lower ''claude'' then Inr ''claude''
          else if includesStr lower ''gemini'' then Inr ''gemini''
          else Inr ''unknown'')"

definition isThinkingModel :: "(string \<Rightarrow> string) \<Rightarrow> jsval \<Rightarrow> error + bool" where
  "isThinkingModel unicodeLower modelName =
     (case lowerName unicodeLower modelName of
        Inl e \<Rightarrow> Inl e
      | Inr lower \<Rightarrow>
          if includesStr lower ''claude'' \<and> includesStr lower ''thinking'' then Inr True
          else if includesStr lower ''gemini'' then
            (if includesStr lower ''thinking'' then Inr True
             else (case matchGeminiVersion lower of
                     None \<Rightarrow> Inr False
                   | Some v \<Rightarrow>
                       (case parseInt v of
                          None \<Rightarrow> Inr False
                        | Some n \<Rightarrow> if 3 \<le> n then Inr True else Inr False)))
          else Inr False)"

section \<open>Paths\<close>

text \<open>
  \<open>join\<close> is \<open>path.join\<close> of Node.js, a library function (\<open>lib/path.js\<close>, as in Node.js
  18 and 20). The \<open>path\<close> module is the win32 implementation exactly when the process
  runs on Windows, which is when \<open>os.platform()\<close> is \<open>'win32'\<close>; everywhere else it is
  the POSIX one. Both are modelled, segment by segment: a path is split at its separators,
  the segments are normalised, and the result is joined again.
\<close>

definition bslash :: char where
  "bslash = CHR 0x5C"

definition isPosixPathSeparator :: "char \<Rightarrow> bool" where
  "isPosixPathSeparator c = (c = CHR ''/'')"

text \<open>On Windows both \<open>/\<close> and the backslash separate segments.\<close>

definition isPathSeparator :: "char \<Rightarrow> bool" where
  "isPathSeparator c = (c = CHR ''/'' \<or> c = bslash)"

definition isWindowsDeviceRoot :: "char \<Rightarrow> bool" where
  "isWindowsDeviceRoot c =
     (c \<in> set ''ABCDEFGHIJKLMNOPQRSTUVWXYZ'' \<or> c \<in> set ''abcdefghijklmnopqrstuvwxyz'')"

fun splitSep :: "(char \<Rightarrow> bool) \<Rightarrow> string \<Rightarrow> string list" where
  "splitSep isSep [] = [[]]"
| "splitSep isSep (c # cs) =
     (if isSep c then [] # splitSep isSep cs
      else (case splitSep isSep cs of
              seg # segs \<Rightarrow> (c # seg) # segs
            | [] \<Rightarrow> [[c]]))"

fun joinSep :: "char \<Rightarrow> string list \<Rightarrow> string" where
  "joinSep separator [] = []"
| "joinSep separator [s] = s"
| "joinSep separator (s # t # ts) = s @ separator # joinSep separator (t # ts)"

text \<open>
  Normalising drops empty segments and \<open>.\<close>, and lets \<open>..\<close> remove the segment before it;
  where there is none to remove, \<open>..\<close> is kept if the path may climb above its start
  (a relative path) and dropped otherwise.
\<close>

fun normalizeSegments :: "bool \<Rightarrow> string list \<Rightarrow> string list \<Rightarrow> string list" where
  "normalizeSegments allowAboveRoot res [] = res"
| "normalizeSegments allowAboveRoot res (seg # segs) =
     (if seg = [] \<or> seg = ''.'' then normalizeSegments allowAboveRoot res segs
      else if seg = ''..'' then
        (if res \<noteq> [] \<and> last res \<noteq> ''..''
         then normalizeSegments allowAboveRoot (butlast res) segs
         else if allowAboveRoot then normalizeSegments allowAboveRoot (res @ [''..'']) segs
         else normalizeSegments allowAboveRoot res segs)
      else normalizeSegments allowAboveRoot (res @ [seg]) segs)"

definition normalizeString :: "string \<Rightarrow> bool \<Rightarrow> char \<Rightarrow> (char \<Rightarrow> bool) \<Rightarrow> string" where
  "normalizeString path allowAboveRoot separator isSep =
     joinSep separator (normalizeSegments allowAboveRoot [] (splitSep isSep path))"

subsection \<open>The POSIX implementation\<close>

definition posix_normalize :: "string \<Rightarrow> string" where
  "posix_normalize path =
     (if path = [] then ''.''
      else
        let isAbsolute = (hd path = CHR ''/'');
            trailingSeparator = (last path = CHR ''/'');
            p = normalizeString path (\<not> isAbsolute) (CHR ''/'') isPosixPathSeparator
        in if p = [] then (if isAbsolute then ''/'' else if trailingSeparator then ''./'' else ''.'')
           else (if isAbsolute then ''/'' else []) @ p @ (if trailingSeparator then ''/'' else []))"

definition posix_join :: "string list \<Rightarrow> string" where
  "posix_join args =
     (let parts = filter (\<lambda>arg. arg \<noteq> []) args
      in if parts = [] then ''.'' else posix_normalize (joinSep (CHR ''/'') parts))"

subsection \<open>The win32 implementation\<close>

text \<open>
  The root of a Windows path: a device (a drive such as \<open>C:\<close>, or a UNC root, two
  separators followed by a server and a share), whether the path is absolute, and the rest
  of the path after the root. A path that is a UNC root and nothing else is returned
  normalised at once.
\<close>

datatype path_root = Root "string option" bool string | UncRoot string

definition win32_unc_root :: "string \<Rightarrow> path_root" where
  "win32_unc_root path =
     (let rest = drop 2 path;
          firstPart = takeWhile (\<lambda>c. \<not> isPathSeparator c) rest;
          after1 = dropWhile (\<lambda>c. \<not> isPathSeparator c) rest
      in if after1 \<noteq> [] \<and> firstPart \<noteq> [] then
           (let after2 = dropWhile isPathSeparator after1
            in if after2 \<noteq> [] then
                 (let share = takeWhile (\<lambda>c. \<not> isPathSeparator c) after2;
                      after3 = dropWhile (\<lambda>c. \<not> isPathSeparator c) after2
                  in if after3 = []
                     then UncRoot ([bslash, bslash] @ firstPart @ [bslash] @ after2 @ [bslash])
                     else Root (Some ([bslash, bslash] @ firstPart @ [bslash] @ share)) True after3)
               else Root None True path)
         else Root None True path)"

text \<open>For a path of at least two characters, as \<open>win32_normalize\<close> calls it.\<close>

definition win32_parse_root :: "string \<Rightarrow> path_root" where
  "win32_parse_root path =
     (if isPathSeparator (path ! 0) then
        (if isPathSeparator (path ! 1) then win32_unc_root path
         else Root None True (drop 1 path))
      else if isWindowsDeviceRoot (path ! 0) \<and> path ! 1 = CHR '':'' then
        (if 2 < length path \<and> isPathSeparator (path ! 2)
         then Root (Some (take 2 path)) True (drop 3 path)
         else Root (Some (take 2 path)) False (drop 2 path))
      else Root None False path)"

definition win32_normalize :: "string \<Rightarrow> string" where
  "win32_normalize path =
     (if path = [] then ''.''
      else if length path = 1 then (if isPosixPathSeparator (hd path) then [bslash] else path)
      else
        (case win32_parse_root path of
           UncRoot root \<Rightarrow> root
         | Root device isAbsolute rest \<Rightarrow>
             let tail0 = (if rest \<noteq> []
                          then normalizeString rest (\<not> isAbsolute) bslash isPathSeparator else []);
                 tail1 = (if tail0 = [] \<and> \<not> isAbsolute then ''.'' else tail0);
                 tail = (if tail1 \<noteq> [] \<and> isPathSeparator (last path)
                         then tail1 @ [bslash] else tail1)
             in (case device of
                   None \<Rightarrow> (if isAbsolute then bslash # tail else tail)
                 | Some d \<Rightarrow> (if isAbsolute then d @ bslash # tail else d @ tail))))"

text \<open>
  Before normalising, \<open>win32.join\<close> replaces a run of two or more leading separators by a
  single backslash, unless the first argument starts with exactly two separators and then
  another character (a UNC path that was meant as one).
\<close>

definition win32_join :: "string list \<Rightarrow> string" where
  "win32_join args =
     (let parts = filter (\<lambda>arg. arg \<noteq> []) args
      in if parts = [] then ''.''
         else
           let joined = joinSep bslash parts;
               firstPart = hd parts;
               needsReplace =
                 (\<not> (2 < length firstPart \<and> isPathSeparator (firstPart ! 0) \<and>
                     isPathSeparator (firstPart ! 1) \<and> \<not> isPathSeparator (firstPart ! 2)));
               slashCount = length (takeWhile isPathSeparator joined)
           in win32_normalize
                (if needsReplace \<and> 2 \<le> slashCount then bslash # drop slashCount joined
                 else joined))"

definition join :: "string \<Rightarrow> string list \<Rightarrow> string" where
  "join platform args = (if platform = ''win32'' then win32_join args else posix_join args)"

subsection \<open>Home directories\<close>

text \<open>
  A home directory as \<open>os.homedir()\<close> gives one. On a POSIX system it is a normalised
  absolute path other than the root: it starts with \<open>/\<close>, and each of its segments is
  non-empty and neither \<open>.\<close> nor \<open>..\<close>. On Windows it is such a path on a drive, written
  with backslashes: a drive letter, a colon, and one or more segments each after a
  backslash.
\<close>

definition plainSegment :: "string \<Rightarrow> bool" where
  "plainSegment seg = (seg \<noteq> [] \<and> seg \<noteq> ''.'' \<and> seg \<noteq> ''..'')"

definition normalizedAbsolute :: "string \<Rightarrow> bool" where
  "normalizedAbsolute path =
     (case splitSep isPosixPathSeparator path of
        [] \<Rightarrow> False
      | first # segs \<Rightarrow> first = [] \<and> segs \<noteq> [] \<and> list_all plainSegment segs)"

definition normalizedDriveAbsolute :: "string \<Rightarrow> bool" where
  "normalizedDriveAbsolute path =
     (case path of
        d # colon # rest \<Rightarrow>
          isWindowsDeviceRoot d \<and> colon = CHR '':'' \<and> CHR ''/'' \<notin> set rest \<and>
          (case splitSep isPathSeparator rest of
             [] \<Rightarrow> False
           | first # segs \<Rightarrow> first = [] \<and> segs \<noteq> [] \<and> list_all plainSegment segs)
      | _ \<Rightarrow> False)"

section \<open>Platform resolver\<close>

text \<open>
  \<open>getAntigravityDbPath\<close>, with what it reads from the operating system as arguments:
  \<open>platform\<close> is \<open>os.platform()\<close> and \<open>home\<close> is \<open>os.homedir()\<close>.
\<close>

definition getAntigravityDbPath :: "string \<Rightarrow> string \<Rightarrow> string" where
  "getAntigravityDbPath platform home =
     (if platform = ''darwin'' then
        join platform
          [home, ''Library/Application Support/Antigravity/User/globalStorage/state.vscdb'']
      else if platform = ''win32'' then
        join platform [home, ''AppData/Roaming/Antigravity/User/globalStorage/state.vscdb'']
      else
        join platform [home, ''.config/Antigravity/User/globalStorage/state.vscdb''])"

section \<open>Configurable constants\<close>

text \<open>
  The exported constants that read the configuration, as functions of the imported
  \<open>config\<close> (and of the platform and the home directory where the default is built from
  them).
\<close>

definition TOKEN_REFRESH_INTERVAL_MS :: "jsval \<Rightarrow> jsval" where
  "TOKEN_REFRESH_INTERVAL_MS config =
     js_or (opt_member config ''tokenCacheTtlMs'') (JNum (5 * 60 * 1000))"

definition REQUEST_BODY_LIMIT :: "jsval \<Rightarrow> jsval" where
  "REQUEST_BODY_LIMIT config = js_or (opt_member config ''requestBodyLimit'') (JStr ''50mb'')"

definition DEFAULT_PORT :: "jsval \<Rightarrow> jsval" where
  "DEFAULT_PORT config = js_or (opt_member config ''port'') (JNum 8080)"

definition ACCOUNT_CONFIG_PATH :: "jsval \<Rightarrow> string \<Rightarrow> string \<Rightarrow> jsval" where
  "ACCOUNT_CONFIG_PATH config platform home =
     js_or (opt_member config ''accountConfigPath'')
       (JStr (join platform [home, ''.config/antigravity-proxy/accounts.json'']))"

definition DEFAULT_COOLDOWN_MS :: "jsval \<Rightarrow> jsval" where
  "DEFAULT_COOLDOWN_MS config = js_or (opt_member config ''defaultCooldownMs'') (JNum (10 * 1000))"

definition MAX_RETRIES :: "jsval \<Rightarrow> jsval" where
  "MAX_RETRIES config = js_or (opt_member config ''maxRetries'') (JNum 5)"

definition MAX_ACCOUNTS :: "jsval \<Rightarrow> jsval" where
  "MAX_ACCOUNTS config = js_or (opt_member config ''maxAccounts'') (JNum 10)"

definition MAX_WAIT_BEFORE_ERROR_MS :: "jsval \<Rightarrow> jsval" where
  "MAX_WAIT_BEFORE_ERROR_MS config =
     js_or (opt_member config ''maxWaitBeforeErrorMs'') (JNum 120000)"

section \<open>Policy tables\<close>

definition ANTIGRAVITY_ENDPOINT_DAILY :: string where
  "ANTIGRAVITY_ENDPOINT_DAILY = ''https://daily-cloudcode-pa.googleapis.com''"

definition ANTIGRAVITY_ENDPOINT_PROD :: string where
  "ANTIGRAVITY_ENDPOINT_PROD = ''https://cloudcode-pa.googleapis.com''"

definition ANTIGRAVITY_ENDPOINT_FALLBACKS :: "string list" where
  "ANTIGRAVITY_ENDPOINT_FALLBACKS = [ANTIGRAVITY_ENDPOINT_DAILY, ANTIGRAVITY_ENDPOINT_PROD]"

text \<open>The object literal, as the list of its properties in the order written.\<close>

definition MODEL_FALLBACK_MAP :: "(string \<times> string) list" where
  "MODEL_FALLBACK_MAP =
     [(''gemini-3-pro-high'', ''claude-opus-4-5-thinking''),
      (''gemini-3-pro-low'', ''claude-sonnet-4-5''),
      (''gemini-3-flash'', ''claude-sonnet-4-5-thinking''),
      (''claude-opus-4-5-thinking'', ''gemini-3-pro-high''),
      (''claude-sonnet-4-5-thinking'', ''gemini-3-flash''),
      (''claude-sonnet-4-5'', ''gemini-3-flash'')]"

text \<open>
  \<open>MODEL_FALLBACK_MAP[name]\<close> for a name that is no property of \<open>Object.prototype\<close>,
  with \<open>None\<close> for \<open>undefined\<close>.
\<close>

definition fallbackOf :: "string \<Rightarrow> string option" where
  "fallbackOf name = map_of MODEL_FALLBACK_MAP name"

section \<open>Helper facts\<close>

lemma includesStr_sublist: "includesStr s pat \<longleftrightarrow> sublist pat s"
  by (induction s) (auto simp: sublist_Cons_right)

lemma lowerName_JStr: "lowerName unicodeLower (JStr s) = Inr (toLowerCase unicodeLower s)"
  by (simp add: lowerName_def js_or_def toLowerCase_def)

lemma lowerName_JNull: "lowerName unicodeLower JNull = Inr []"
  by (simp add: lowerName_def js_or_def toLowerCase_def)

lemma lowerName_JUndefined: "lowerName unicodeLower JUndefined = Inr []"
  by (simp add: lowerName_def js_or_def toLowerCase_def)

lemma toLowerCase_Nil: "toLowerCase unicodeLower [] = []"
  by (simp add: toLowerCase_def)

lemmas lower_eval = toLowerCase_def toLowerChar_def isAscii_def

lemmas classify_eval =
  getModelFamily_def isThinkingModel_def lowerName_JStr lowerName_JNull lowerName_JUndefined
  lower_eval isDigit_def parseInt_def digitVal_def

subsection \<open>The leftmost version marker\<close>

lemma versionMarkerAt_iff:
  "versionMarkerAt s \<longleftrightarrow> (\<exists>d r. isDigit d \<and> s = ''gemini-'' @ d # r)"
  unfolding versionMarkerAt_def
proof
  assume a: "prefix ''gemini-'' s \<and> takeWhile isDigit (drop 7 s) \<noteq> []"
  then obtain t where t: "s = ''gemini-'' @ t" by (auto simp: prefix_def)
  with a have "takeWhile isDigit t \<noteq> []" by simp
  then obtain d r where "t = d # r" "isDigit d"
    by (cases t) (auto split: if_splits)
  with t show "\<exists>d r. isDigit d \<and> s = ''gemini-'' @ d # r" by blast
next
  assume "\<exists>d r. isDigit d \<and> s = ''gemini-'' @ d # r"
  then show "prefix ''gemini-'' s \<and> takeWhile isDigit (drop 7 s) \<noteq> []"
    by auto
qed

lemma matchGeminiVersion_Cons:
  "matchGeminiVersion (c # cs) =
     (if versionMarkerAt (c # cs) then Some (takeWhile isDigit (drop 7 (c # cs)))
      else matchGeminiVersion cs)"
  by (simp only: matchGeminiVersion.simps versionMarkerAt_def)

lemma matchGeminiVersion_leftmost:
  "matchGeminiVersion s = Some ds \<longleftrightarrow>
   (\<exists>pre rest. s = pre @ rest \<and> versionMarkerAt rest \<and>
      ds = takeWhile isDigit (drop 7 rest) \<and>
      (\<forall>p q. s = p @ q \<and> length p < length pre \<longrightarrow> \<not> versionMarkerAt q))"
proof (induction s)
  case Nil
  then show ?case by (simp add: versionMarkerAt_iff)
next
  case (Cons c cs)
  show ?case
  proof (cases "versionMarkerAt (c # cs)")
    case True
    have "(\<exists>pre rest. c # cs = pre @ rest \<and> versionMarkerAt rest \<and>
        ds = takeWhile isDigit (drop 7 rest) \<and>
        (\<forall>p q. c # cs = p @ q \<and> length p < length pre \<longrightarrow> \<not> versionMarkerAt q))
      \<longleftrightarrow> ds = takeWhile isDigit (drop 7 (c # cs))"
    proof
      assume "\<exists>pre rest. c # cs = pre @ rest \<and> versionMarkerAt rest \<and>
        ds = takeWhile isDigit (drop 7 rest) \<and>
        (\<forall>p q. c # cs = p @ q \<and> length p < length pre \<longrightarrow> \<not> versionMarkerAt q)"
      then obtain pre rest where h: "c # cs = pre @ rest"
        "ds = takeWhile isDigit (drop 7 rest)"
        "\<forall>p q. c # cs = p @ q \<and> length p < length pre \<longrightarrow> \<not> versionMarkerAt q"
        by blast
      have "pre = []"
      proof (rule ccontr)
        assume "pre \<noteq> []"
        then have "c # cs = [] @ (c # cs) \<and> length ([]::string) < length pre" by simp
        with h(3) have "\<not> versionMarkerAt (c # cs)" by blast
        with True show False by simp
      qed
      with h show "ds = takeWhile isDigit (drop 7 (c # cs))" by simp
    next
      assume d: "ds = takeWhile isDigit (drop 7 (c # cs))"
      have "c # cs = [] @ (c # cs) \<and> versionMarkerAt (c # cs) \<and>
        ds = takeWhile isDigit (drop 7 (c # cs)) \<and>
        (\<forall>p q. c # cs = p @ q \<and> length p < length ([]::string) \<longrightarrow> \<not> versionMarkerAt q)"
        using True d by simp
      then show "\<exists>pre rest. c # cs = pre @ rest \<and> versionMarkerAt rest \<and>
        ds = takeWhile isDigit (drop 7 rest) \<and>
        (\<forall>p q. c # cs = p @ q \<and> length p < length pre \<longrightarrow> \<not> versionMarkerAt q)"
        by blast
    qed
    with True show ?thesis by (auto simp only: matchGeminiVersion_Cons if_True option.inject)
  next
    case False
    have "(\<exists>pre rest. c # cs = pre @ rest \<and> versionMarkerAt rest \<and>
        ds = takeWhile isDigit (drop 7 rest) \<and>
        (\<forall>p q. c # cs = p @ q \<and> length p < length pre \<longrightarrow> \<not> versionMarkerAt q))
      \<longleftrightarrow> (\<exists>pre rest. cs = pre @ rest \<and> versionMarkerAt rest \<and>
        ds = takeWhile isDigit (drop 7 rest) \<and>
        (\<forall>p q. cs = p @ q \<and> length p < length pre \<longrightarrow> \<not> versionMarkerAt q))"
    proof
      assume "\<exists>pre rest. c # cs = pre @ rest \<and> versionMarkerAt rest \<and>
        ds = takeWhile isDigit (drop 7 rest) \<and>
        (\<forall>p q. c # cs = p @ q \<and> length p < length pre \<longrightarrow> \<not> versionMarkerAt q)"
      then obtain pre rest where h: "c # cs = pre @ rest" "versionMarkerAt rest"
        "ds = takeWhile isDigit (drop 7 rest)"
        "\<forall>p q. c # cs = p @ q \<and> length p < length pre \<longrightarrow> \<not> versionMarkerAt q"
        by blast
      from h(1,2) False obtain pre' where p: "pre = c # pre'" "cs = pre' @ rest"
        by (cases pre) auto
      have "\<forall>p q. cs = p @ q \<and> length p < length pre' \<longrightarrow> \<not> versionMarkerAt q"
      proof (intro allI impI)
        fix p' q assume "cs = p' @ q \<and> length p' < length pre'"
        then have "c # cs = (c # p') @ q \<and> length (c # p') < length pre"
          using p by simp
        with h(4) show "\<not> versionMarkerAt q" by blast
      qed
      with p h show "\<exists>pre rest. cs = pre @ rest \<and> versionMarkerAt rest \<and>
        ds = takeWhile isDigit (drop 7 rest) \<and>
        (\<forall>p q. cs = p @ q \<and> length p < length pre \<longrightarrow> \<not> versionMarkerAt q)"
        by blast
    next
      assume "\<exists>pre rest. cs = pre @ rest \<and> versionMarkerAt rest \<and>
        ds = takeWhile isDigit (drop 7 rest) \<and>
        (\<forall>p q. cs = p @ q \<and> length p < length pre \<longrightarrow> \<not> versionMarkerAt q)"
      then obtain pre rest where h: "cs = pre @ rest" "versionMarkerAt rest"
        "ds = takeWhile isDigit (drop 7 rest)"
        "\<forall>p q. cs = p @ q \<and> length p < length pre \<longrightarrow> \<not> versionMarkerAt q"
        by blast
      have "\<forall>p q. c # cs = p @ q \<and> length p < length (c # pre) \<longrightarrow> \<not> versionMarkerAt q"
      proof (intro allI impI)
        fix p q assume a: "c # cs = p @ q \<and> length p < length (c # pre)"
        show "\<not> versionMarkerAt q"
        proof (cases p)
          case Nil
          with a False show ?thesis by simp
        next
          case (Cons x p')
          with a have "cs = p' @ q \<and> length p' < length pre" by simp
          with h(4) show ?thesis by blast
        qed
      qed
      moreover have "c # cs = (c # pre) @ rest" using h(1) by simp
      ultimately show "\<exists>pre rest. c # cs = pre @ rest \<and> versionMarkerAt rest \<and>
        ds = takeWhile isDigit (drop 7 rest) \<and>
        (\<forall>p q. c # cs = p @ q \<and> length p < length pre \<longrightarrow> \<not> versionMarkerAt q)"
        using h(2,3) by blast
    qed
    with False Cons.IH show ?thesis by (simp only: matchGeminiVersion_Cons if_False)
  qed
qed

lemma capture_shape:
  assumes "versionMarkerAt rest"
  shows "\<exists>post. rest = ''gemini-'' @ takeWhile isDigit (drop 7 rest) @ post \<and>
           takeWhile isDigit (drop 7 rest) \<noteq> [] \<and>
           list_all isDigit (takeWhile isDigit (drop 7 rest)) \<and>
           takeWhile isDigit post = []"
proof -
  from assms obtain d r where s: "rest = ''gemini-'' @ d # r" and d: "isDigit d"
    by (auto simp: versionMarkerAt_iff)
  let ?t = "d # r"
  have d7: "drop 7 rest = ?t" using s by simp
  have "rest = ''gemini-'' @ takeWhile isDigit ?t @ dropWhile isDigit ?t"
    using s by simp
  moreover have "takeWhile isDigit (dropWhile isDigit ?t) = []"
    by (metis takeWhile_eq_Nil_iff hd_dropWhile)
  moreover have "list_all isDigit (takeWhile isDigit ?t)"
    by (simp add: list_all_iff) (metis set_takeWhileD)
  moreover have "takeWhile isDigit ?t \<noteq> []" using d by simp
  ultimately show ?thesis unfolding d7 by blast
qed

lemma capture_unique:
  assumes "rest = ''gemini-'' @ ds @ post" "list_all isDigit ds" "takeWhile isDigit post = []"
  shows "takeWhile isDigit (drop 7 rest) = ds"
proof -
  have "drop 7 rest = ds @ post" using assms by simp
  moreover have "takeWhile isDigit (ds @ post) = ds"
    using assms(2,3) by (induction ds) auto
  ultimately show ?thesis by simp
qed

lemma version_at_least_3:
  "(\<exists>v n. matchGeminiVersion s = Some v \<and> parseInt v = Some n \<and> 3 \<le> n) \<longleftrightarrow>
   (\<exists>pre ds post n. s = pre @ ''gemini-'' @ ds @ post \<and> ds \<noteq> [] \<and> list_all isDigit ds \<and>
      takeWhile isDigit post = [] \<and>
      (\<forall>p q. s = p @ q \<and> length p < length pre \<longrightarrow>
         \<not> (\<exists>d r. isDigit d \<and> q = ''gemini-'' @ d # r)) \<and>
      parseInt ds = Some n \<and> 3 \<le> n)"
proof
  assume "\<exists>v n. matchGeminiVersion s = Some v \<and> parseInt v = Some n \<and> 3 \<le> n"
  then obtain v n where m: "matchGeminiVersion s = Some v" and n: "parseInt v = Some n" "3 \<le> n"
    by blast
  from m obtain pre rest where r: "s = pre @ rest" "versionMarkerAt rest"
    "v = takeWhile isDigit (drop 7 rest)"
    "\<forall>p q. s = p @ q \<and> length p < length pre \<longrightarrow> \<not> versionMarkerAt q"
    unfolding matchGeminiVersion_leftmost by blast
  from capture_shape [OF r(2)] r(3) obtain post where
    p: "rest = ''gemini-'' @ v @ post" "v \<noteq> []" "list_all isDigit v" "takeWhile isDigit post = []"
    by blast
  have "s = pre @ ''gemini-'' @ v @ post" using r(1) p(1) by simp
  with p(2-4) r(4) n
  show "\<exists>pre ds post n. s = pre @ ''gemini-'' @ ds @ post \<and> ds \<noteq> [] \<and> list_all isDigit ds \<and>
      takeWhile isDigit post = [] \<and>
      (\<forall>p q. s = p @ q \<and> length p < length pre \<longrightarrow>
         \<not> (\<exists>d r. isDigit d \<and> q = ''gemini-'' @ d # r)) \<and>
      parseInt ds = Some n \<and> 3 \<le> n"
    unfolding versionMarkerAt_iff by blast
next
  assume "\<exists>pre ds post n. s = pre @ ''gemini-'' @ ds @ post \<and> ds \<noteq> [] \<and> list_all isDigit ds \<and>
      takeWhile isDigit post = [] \<and>
      (\<forall>p q. s = p @ q \<and> length p < length pre \<longrightarrow>
         \<not> (\<exists>d r. isDigit d \<and> q = ''gemini-'' @ d # r)) \<and>
      parseInt ds = Some n \<and> 3 \<le> n"
  then obtain pre ds post n where h: "s = pre @ ''gemini-'' @ ds @ post" "ds \<noteq> []"
    "list_all isDigit ds" "takeWhile isDigit post = []"
    "\<forall>p q. s = p @ q \<and> length p < length pre \<longrightarrow> \<not> versionMarkerAt q"
    "parseInt ds = Some n" "3 \<le> n"
    unfolding versionMarkerAt_iff by blast
  define rest where "rest = ''gemini-'' @ ds @ post"
  from h(2,3) obtain d ds' where "ds = d # ds'" "isDigit d" by (cases ds) auto
  then have "versionMarkerAt rest" by (auto simp: versionMarkerAt_iff rest_def)
  moreover have "takeWhile isDigit (drop 7 rest) = ds"
    using capture_unique [OF rest_def h(3,4)] .
  moreover have "s = pre @ rest" using h(1) by (simp add: rest_def)
  ultimately have "matchGeminiVersion s = Some ds"
    unfolding matchGeminiVersion_leftmost using h(5) by blast
  with h(6,7) show "\<exists>v n. matchGeminiVersion s = Some v \<and> parseInt v = Some n \<and> 3 \<le> n"
    by blast
qed

lemma isThinkingModel_JStr:
  "isThinkingModel unicodeLower (JStr name) =
     Inr ((sublist ''claude'' (toLowerCase unicodeLower name) \<and> sublist ''thinking'' (toLowerCase unicodeLower name)) \<or>
          (sublist ''gemini'' (toLowerCase unicodeLower name) \<and>
             (sublist ''thinking'' (toLowerCase unicodeLower name) \<or>
              (\<exists>v n. matchGeminiVersion (toLowerCase unicodeLower name) = Some v \<and>
                 parseInt v = Some n \<and> 3 \<le> n))))"
  by (auto simp: isThinkingModel_def lowerName_JStr includesStr_sublist split: option.splits)

subsection \<open>Splitting, joining and normalising\<close>

lemma splitSep_nonempty: "splitSep isSep s \<noteq> []"
  by (induction s) (auto split: list.splits)

lemma splitSep_append:
  "isSep c \<Longrightarrow> splitSep isSep (a @ c # b) = splitSep isSep a @ splitSep isSep b"
  by (induction a) (auto split: list.splits simp: splitSep_nonempty)

lemma joinSep_splitSep:
  "(\<And>c. c \<in> set s \<Longrightarrow> isSep c \<Longrightarrow> c = separator) \<Longrightarrow>
   joinSep separator (splitSep isSep s) = s"
proof (induction s)
  case Nil
  then show ?case by simp
next
  case (Cons c cs)
  obtain seg segs where s: "splitSep isSep cs = seg # segs"
    using splitSep_nonempty [of isSep cs] by (cases "splitSep isSep cs") auto
  have ih: "joinSep separator (splitSep isSep cs) = cs"
    using Cons by simp
  show ?case
  proof (cases "isSep c")
    case True
    then have "c = separator" using Cons.prems by simp
    with True ih s show ?thesis by simp
  next
    case False
    with ih s show ?thesis by (cases segs) auto
  qed
qed

lemma joinSep_append:
  "xs \<noteq> [] \<Longrightarrow> ys \<noteq> [] \<Longrightarrow>
   joinSep separator (xs @ ys) = joinSep separator xs @ separator # joinSep separator ys"
  by (induction separator xs rule: joinSep.induct) (auto simp: neq_Nil_conv)

lemma normalizeSegments_plain:
  "list_all plainSegment segs \<Longrightarrow> normalizeSegments a res segs = res @ segs"
  by (induction segs arbitrary: res) (auto simp: plainSegment_def)

lemma splitSep_single_empty: "splitSep isSep s = [[]] \<longleftrightarrow> s = []"
  using splitSep_nonempty [of isSep "tl s"] by (cases s) (auto split: list.splits)

lemma last_splitSep:
  "path \<noteq> [] \<Longrightarrow> isSep (last path) = (last (splitSep isSep path) = [])"
proof (induction path)
  case Nil
  then show ?case by simp
next
  case (Cons c cs)
  obtain seg segs where s: "splitSep isSep cs = seg # segs"
    using splitSep_nonempty [of isSep cs] by (cases "splitSep isSep cs") auto
  show ?case
  proof (cases "cs = []")
    case True
    then show ?thesis by simp
  next
    case False
    with splitSep_single_empty [of isSep cs] s have "segs \<noteq> [] \<or> seg \<noteq> []" by auto
    with False Cons s show ?thesis by (cases segs) auto
  qed
qed

lemma plain_no_trailing:
  assumes "list_all plainSegment (splitSep isSep rel)"
  shows "rel \<noteq> []" and "\<not> isSep (last rel)"
proof -
  show r: "rel \<noteq> []" using assms by (auto simp: plainSegment_def)
  have "last (splitSep isSep rel) \<noteq> []"
    using assms splitSep_nonempty [of isSep rel] by (auto simp: list_all_iff plainSegment_def)
  then show "\<not> isSep (last rel)" using last_splitSep [OF r, of isSep] by simp
qed

lemma normalizeString_plain:
  assumes "segs \<noteq> []" "list_all plainSegment segs" "list_all plainSegment (splitSep isSep rel)"
    "splitSep isSep body = segs" "isSep separator"
  shows "normalizeString (body @ separator # rel) a separator isSep =
     joinSep separator segs @ separator # joinSep separator (splitSep isSep rel)"
proof -
  have "splitSep isSep (body @ separator # rel) = segs @ splitSep isSep rel"
    using assms(4,5) by (simp add: splitSep_append)
  moreover have "normalizeSegments a [] (segs @ splitSep isSep rel) = segs @ splitSep isSep rel"
    using normalizeSegments_plain [of "segs @ splitSep isSep rel" a "[]"] assms(2,3) by simp
  ultimately show ?thesis
    unfolding normalizeString_def
    using joinSep_append [OF assms(1) splitSep_nonempty [of isSep rel]] by simp
qed

lemma normalizedAbsolute_shape:
  assumes "normalizedAbsolute home"
  obtains body segs where "home = CHR ''/'' # body" "splitSep isPosixPathSeparator body = segs"
    "segs \<noteq> []" "list_all plainSegment segs" "body = joinSep (CHR ''/'') segs"
proof -
  from assms obtain segs where s: "splitSep isPosixPathSeparator home = [] # segs"
    "segs \<noteq> []" "list_all plainSegment segs"
    by (auto simp: normalizedAbsolute_def split: list.splits)
  then obtain c body where h: "home = c # body" by (cases home) auto
  have c: "c = CHR ''/''"
    using s(1) h by (auto simp: isPosixPathSeparator_def split: if_splits list.splits)
  with s(1) h have b: "splitSep isPosixPathSeparator body = segs"
    by (simp add: isPosixPathSeparator_def)
  have "joinSep (CHR ''/'') (splitSep isPosixPathSeparator body) = body"
    by (rule joinSep_splitSep) (simp add: isPosixPathSeparator_def)
  with b have "body = joinSep (CHR ''/'') segs" by simp
  with h c b s show thesis using that by blast
qed

lemma posix_join_normalizedAbsolute:
  assumes h: "normalizedAbsolute home"
    and r: "list_all plainSegment (splitSep isPosixPathSeparator rel)"
  shows "posix_join [home, rel] = home @ CHR ''/'' # rel"
proof -
  from h obtain body segs where s: "home = CHR ''/'' # body"
    "splitSep isPosixPathSeparator body = segs" "segs \<noteq> []" "list_all plainSegment segs"
    "body = joinSep (CHR ''/'') segs"
    by (rule normalizedAbsolute_shape)
  note rel = plain_no_trailing [OF r]
  let ?path = "home @ CHR ''/'' # rel"
  have j: "posix_join [home, rel] = posix_normalize ?path"
    using rel(1) s(1) by (simp add: posix_join_def)
  have sp: "splitSep isPosixPathSeparator ?path =
      [] # segs @ splitSep isPosixPathSeparator rel"
    using s(1,2) by (simp add: splitSep_append isPosixPathSeparator_def)
  have "normalizeSegments False [] (splitSep isPosixPathSeparator ?path) =
      segs @ splitSep isPosixPathSeparator rel"
    using normalizeSegments_plain [of "segs @ splitSep isPosixPathSeparator rel" False "[]"]
      s(4) r by (simp add: sp)
  then have p: "normalizeString ?path False (CHR ''/'') isPosixPathSeparator =
      body @ CHR ''/'' # rel"
    unfolding normalizeString_def
    using joinSep_append [OF s(3) splitSep_nonempty [of isPosixPathSeparator rel]] s(5)
      joinSep_splitSep [of rel isPosixPathSeparator "CHR ''/''"]
    by (simp add: isPosixPathSeparator_def)
  have tr: "last ?path \<noteq> CHR ''/''"
    using rel by (simp add: isPosixPathSeparator_def)
  have "posix_normalize ?path = CHR ''/'' # body @ CHR ''/'' # rel"
    unfolding posix_normalize_def Let_def using tr p s(1) by simp
  with j s(1) show ?thesis by simp
qed

lemma device_root_not_separator: "isWindowsDeviceRoot d \<Longrightarrow> \<not> isPathSeparator d"
  by (auto simp: isWindowsDeviceRoot_def isPathSeparator_def bslash_def)

lemma normalizedDriveAbsolute_shape:
  assumes "normalizedDriveAbsolute home"
  obtains d body segs where "home = d # CHR '':'' # bslash # body" "isWindowsDeviceRoot d"
    "splitSep isPathSeparator body = segs" "segs \<noteq> []" "list_all plainSegment segs"
    "body = joinSep bslash segs"
proof -
  from assms obtain d rest segs where s: "home = d # CHR '':'' # rest" "isWindowsDeviceRoot d"
    "CHR ''/'' \<notin> set rest" "splitSep isPathSeparator rest = [] # segs"
    "segs \<noteq> []" "list_all plainSegment segs"
    by (auto simp: normalizedDriveAbsolute_def split: list.splits)
  then obtain c body where h: "rest = c # body" by (cases rest) auto
  have c: "isPathSeparator c"
    using s(4) h by (auto split: if_splits list.splits)
  with s(3) h have cb: "c = bslash" by (auto simp: isPathSeparator_def)
  from c s(4) h have b: "splitSep isPathSeparator body = segs" by simp
  have "joinSep bslash (splitSep isPathSeparator body) = body"
    using s(3) h by (intro joinSep_splitSep) (auto simp: isPathSeparator_def)
  with b have "body = joinSep bslash segs" by simp
  with s h cb b show thesis using that by blast
qed

lemma win32_join_normalizedDriveAbsolute:
  assumes h: "normalizedDriveAbsolute home"
    and r: "list_all plainSegment (splitSep isPathSeparator rel)"
  shows "win32_join [home, rel] = home @ bslash # joinSep bslash (splitSep isPathSeparator rel)"
proof -
  from h obtain d body segs where s: "home = d # CHR '':'' # bslash # body"
    "isWindowsDeviceRoot d" "splitSep isPathSeparator body = segs" "segs \<noteq> []"
    "list_all plainSegment segs" "body = joinSep bslash segs"
    by (rule normalizedDriveAbsolute_shape)
  note rel = plain_no_trailing [OF r]
  note d = device_root_not_separator [OF s(2)]
  have sep: "isPathSeparator bslash" by (simp add: isPathSeparator_def)
  let ?path = "home @ bslash # rel"
  have j: "win32_join [home, rel] = win32_normalize ?path"
    using rel(1) s(1) d by (simp add: win32_join_def Let_def)
  have root: "win32_parse_root ?path =
      Root (Some [d, CHR '':'']) True (body @ bslash # rel)"
    using s(1,2) d sep by (simp add: win32_parse_root_def)
  have tail: "normalizeString (body @ bslash # rel) False bslash isPathSeparator =
      body @ bslash # joinSep bslash (splitSep isPathSeparator rel)"
    using normalizeString_plain [OF s(4,5) r s(3) sep, of False] s(6) by simp
  have last: "\<not> isPathSeparator (last ?path)" using rel by simp
  have "win32_normalize ?path =
      [d, CHR '':''] @ bslash # body @ bslash # joinSep bslash (splitSep isPathSeparator rel)"
    unfolding win32_normalize_def root using last tail s(1) by (simp add: Let_def)
  with j s(1) show ?thesis by simp
qed

subsection \<open>Markers in a joined path\<close>

lemma sublist_span:
  assumes "\<not> sublist m home"
  shows "sublist m (home @ c # rel) \<longleftrightarrow>
     sublist m (c # rel) \<or>
     (\<exists>m1 m2. m = m1 @ c # m2 \<and> m1 \<noteq> [] \<and> suffix m1 home \<and> prefix m2 rel)"
proof
  assume "sublist m (home @ c # rel)"
  then consider "sublist m home" | "sublist m (c # rel)"
    | m1 m2 where "m = m1 @ m2" "suffix m1 home" "prefix m2 (c # rel)"
    unfolding sublist_append by blast
  then show "sublist m (c # rel) \<or>
     (\<exists>m1 m2. m = m1 @ c # m2 \<and> m1 \<noteq> [] \<and> suffix m1 home \<and> prefix m2 rel)"
  proof cases
    case 1
    with assms show ?thesis by simp
  next
    case 2
    then show ?thesis by simp
  next
    case (3 m1 m2)
    show ?thesis
    proof (cases "m1 = [] \<or> m2 = []")
      case True
      with 3 assms show ?thesis by auto
    next
      case False
      with 3(3) obtain m2' where "m2 = c # m2'" "prefix m2' rel"
        by (cases m2) auto
      with 3 False show ?thesis by blast
    qed
  qed
next
  assume "sublist m (c # rel) \<or>
     (\<exists>m1 m2. m = m1 @ c # m2 \<and> m1 \<noteq> [] \<and> suffix m1 home \<and> prefix m2 rel)"
  then show "sublist m (home @ c # rel)"
    unfolding sublist_append by (metis Cons_prefix_Cons)
qed

lemma sublist_no_separator:
  assumes "\<not> sublist m home" "c \<notin> set m"
  shows "sublist m (home @ c # rel) \<longleftrightarrow> sublist m rel"
proof -
  have "\<not> (\<exists>m1 m2. m = m1 @ c # m2 \<and> m1 \<noteq> [] \<and> suffix m1 home \<and> prefix m2 rel)"
    using assms(2) by auto
  moreover have "sublist m (c # rel) \<longleftrightarrow> sublist m rel"
    using assms(2) by (cases m) (auto simp: sublist_Cons_right)
  ultimately show ?thesis unfolding sublist_span [OF assms(1)] by blast
qed

lemma split_at_only_separator:
  assumes "u @ c # v = m1 @ c # m2" "c \<notin> set u" "c \<notin> set v"
  shows "m1 = u \<and> m2 = v"
  using assms by (auto simp: append_eq_append_conv2 append_eq_Cons_conv Cons_eq_append_conv)

lemma sublist_one_separator:
  assumes "\<not> sublist (u @ c # v) home" "c \<notin> set u" "c \<notin> set v" "u \<noteq> []" "\<not> prefix v rel"
  shows "sublist (u @ c # v) (home @ c # rel) \<longleftrightarrow> sublist (u @ c # v) rel"
proof -
  have "\<not> (\<exists>m1 m2. u @ c # v = m1 @ c # m2 \<and> m1 \<noteq> [] \<and> suffix m1 home \<and> prefix m2 rel)"
    using split_at_only_separator [OF _ assms(2,3)] assms(5) by blast
  moreover have "sublist (u @ c # v) (c # rel) \<longleftrightarrow> sublist (u @ c # v) rel"
    using assms(2,4) by (cases u) (auto simp: sublist_Cons_right)
  ultimately show ?thesis unfolding sublist_span [OF assms(1)] by blast
qed

text \<open>The three relative paths, and which marker each of them holds.\<close>

lemma relative_path_markers:
  "sublist ''Library/Application Support''
     ''Library/Application Support/Antigravity/User/globalStorage/state.vscdb''"
  "\<not> sublist (''AppData'' @ bslash # ''Roaming'')
     ''Library/Application Support/Antigravity/User/globalStorage/state.vscdb''"
  "\<not> sublist ''.config''
     ''Library/Application Support/Antigravity/User/globalStorage/state.vscdb''"
  "\<not> sublist ''Library/Application Support''
     ''.config/Antigravity/User/globalStorage/state.vscdb''"
  "\<not> sublist (''AppData'' @ bslash # ''Roaming'')
     ''.config/Antigravity/User/globalStorage/state.vscdb''"
  "sublist ''.config'' ''.config/Antigravity/User/globalStorage/state.vscdb''"
  "\<not> sublist ''Library/Application Support''
     (joinSep bslash
        [''AppData'', ''Roaming'', ''Antigravity'', ''User'', ''globalStorage'', ''state.vscdb''])"
  "sublist (''AppData'' @ bslash # ''Roaming'')
     (joinSep bslash
        [''AppData'', ''Roaming'', ''Antigravity'', ''User'', ''globalStorage'', ''state.vscdb''])"
  "\<not> sublist ''.config''
     (joinSep bslash
        [''AppData'', ''Roaming'', ''Antigravity'', ''User'', ''globalStorage'', ''state.vscdb''])"
  by (simp_all add: includesStr_sublist [symmetric] bslash_def)

lemma marker_library:
  assumes "\<not> sublist ''Library/Application Support'' home" "\<not> prefix ''Application Support'' rel"
  shows "sublist ''Library/Application Support'' (home @ CHR ''/'' # rel) \<longleftrightarrow>
         sublist ''Library/Application Support'' rel"
  using sublist_one_separator [of "''Library''" "CHR ''/''" "''Application Support''" home rel]
    assms by simp

lemma marker_appdata:
  assumes "\<not> sublist (''AppData'' @ bslash # ''Roaming'') home" "\<not> prefix ''Roaming'' rel"
  shows "sublist (''AppData'' @ bslash # ''Roaming'') (home @ bslash # rel) \<longleftrightarrow>
         sublist (''AppData'' @ bslash # ''Roaming'') rel"
  using sublist_one_separator [of "''AppData''" bslash "''Roaming''" home rel] assms
  by (simp add: bslash_def)

lemma markers_posix:
  assumes "\<not> sublist ''Library/Application Support'' home"
    "\<not> sublist (''AppData'' @ bslash # ''Roaming'') home" "\<not> sublist ''.config'' home"
    "\<not> prefix ''Application Support'' rel"
  shows "sublist ''Library/Application Support'' (home @ CHR ''/'' # rel) \<longleftrightarrow>
      sublist ''Library/Application Support'' rel"
    and "sublist (''AppData'' @ bslash # ''Roaming'') (home @ CHR ''/'' # rel) \<longleftrightarrow>
      sublist (''AppData'' @ bslash # ''Roaming'') rel"
    and "sublist ''.config'' (home @ CHR ''/'' # rel) \<longleftrightarrow> sublist ''.config'' rel"
proof -
  show "sublist ''Library/Application Support'' (home @ CHR ''/'' # rel) \<longleftrightarrow>
      sublist ''Library/Application Support'' rel"
    by (rule marker_library [OF assms(1,4)])
  show "sublist (''AppData'' @ bslash # ''Roaming'') (home @ CHR ''/'' # rel) \<longleftrightarrow>
      sublist (''AppData'' @ bslash # ''Roaming'') rel"
    by (rule sublist_no_separator [OF assms(2)]) (simp add: bslash_def)
  show "sublist ''.config'' (home @ CHR ''/'' # rel) \<longleftrightarrow> sublist ''.config'' rel"
    by (rule sublist_no_separator [OF assms(3)]) simp
qed

lemma markers_win32:
  assumes "\<not> sublist ''Library/Application Support'' home"
    "\<not> sublist (''AppData'' @ bslash # ''Roaming'') home" "\<not> sublist ''.config'' home"
    "\<not> prefix ''Roaming'' rel"
  shows "sublist ''Library/Application Support'' (home @ bslash # rel) \<longleftrightarrow>
      sublist ''Library/Application Support'' rel"
    and "sublist (''AppData'' @ bslash # ''Roaming'') (home @ bslash # rel) \<longleftrightarrow>
      sublist (''AppData'' @ bslash # ''Roaming'') rel"
    and "sublist ''.config'' (home @ bslash # rel) \<longleftrightarrow> sublist ''.config'' rel"
proof -
  show "sublist ''Library/Application Support'' (home @ bslash # rel) \<longleftrightarrow>
      sublist ''Library/Application Support'' rel"
    by (rule sublist_no_separator [OF assms(1)]) (simp add: bslash_def)
  show "sublist (''AppData'' @ bslash # ''Roaming'') (home @ bslash # rel) \<longleftrightarrow>
      sublist (''AppData'' @ bslash # ''Roaming'') rel"
    by (rule marker_appdata [OF assms(2,4)])
  show "sublist ''.config'' (home @ bslash # rel) \<longleftrightarrow> sublist ''.config'' rel"
    by (rule sublist_no_separator [OF assms(3)]) (simp add: bslash_def)
qed

lemma plain_relative_paths:
  "list_all plainSegment (splitSep isPosixPathSeparator
     ''Library/Application Support/Antigravity/User/globalStorage/state.vscdb'')"
  "list_all plainSegment (splitSep isPosixPathSeparator
     ''.config/Antigravity/User/globalStorage/state.vscdb'')"
  "list_all plainSegment (splitSep isPathSeparator
     ''AppData/Roaming/Antigravity/User/globalStorage/state.vscdb'')"
  "splitSep isPathSeparator ''AppData/Roaming/Antigravity/User/globalStorage/state.vscdb'' =
     [''AppData'', ''Roaming'', ''Antigravity'', ''User'', ''globalStorage'', ''state.vscdb'']"
  by (simp_all add: plainSegment_def isPosixPathSeparator_def isPathSeparator_def bslash_def)

lemma path_darwin:
  "normalizedAbsolute home \<Longrightarrow> getAntigravityDbPath ''darwin'' home =
     home @ CHR ''/'' # ''Library/Application Support/Antigravity/User/globalStorage/state.vscdb''"
  using posix_join_normalizedAbsolute [OF _ plain_relative_paths(1), of home]
  by (simp add: getAntigravityDbPath_def join_def)

lemma path_other:
  "platform \<noteq> ''darwin'' \<Longrightarrow> platform \<noteq> ''win32'' \<Longrightarrow> normalizedAbsolute home \<Longrightarrow>
   getAntigravityDbPath platform home =
     home @ CHR ''/'' # ''.config/Antigravity/User/globalStorage/state.vscdb''"
  using posix_join_normalizedAbsolute [OF _ plain_relative_paths(2), of home]
  by (simp add: getAntigravityDbPath_def join_def)

lemma path_win32:
  "normalizedDriveAbsolute home \<Longrightarrow> getAntigravityDbPath ''win32'' home =
     home @ bslash # joinSep bslash
       [''AppData'', ''Roaming'', ''Antigravity'', ''User'', ''globalStorage'', ''state.vscdb'']"
  using win32_join_normalizedDriveAbsolute [OF _ plain_relative_paths(3), of home]
  unfolding plain_relative_paths(4)
  by (simp add: getAntigravityDbPath_def join_def)

lemma path_root:
  "getAntigravityDbPath ''darwin'' ''/'' =
     ''/Library/Application Support/Antigravity/User/globalStorage/state.vscdb''"
  "platform \<noteq> ''darwin'' \<Longrightarrow> platform \<noteq> ''win32'' \<Longrightarrow>
   getAntigravityDbPath platform ''/'' = ''/.config/Antigravity/User/globalStorage/state.vscdb''"
  by (simp_all add: getAntigravityDbPath_def join_def posix_join_def posix_normalize_def
      normalizeString_def isPosixPathSeparator_def)

lemma drive_home_no_slash: "normalizedDriveAbsolute home \<Longrightarrow> CHR ''/'' \<notin> set home"
  by (auto simp: normalizedDriveAbsolute_def isWindowsDeviceRoot_def split: list.splits)

lemma root_path_markers:
  "sublist ''Library/Application Support''
     ''/Library/Application Support/Antigravity/User/globalStorage/state.vscdb''"
  "\<not> sublist (''AppData'' @ bslash # ''Roaming'')
     ''/Library/Application Support/Antigravity/User/globalStorage/state.vscdb''"
  "\<not> sublist ''.config''
     ''/Library/Application Support/Antigravity/User/globalStorage/state.vscdb''"
  "\<not> sublist ''Library/Application Support''
     ''/.config/Antigravity/User/globalStorage/state.vscdb''"
  "\<not> sublist (''AppData'' @ bslash # ''Roaming'')
     ''/.config/Antigravity/User/globalStorage/state.vscdb''"
  "sublist ''.config'' ''/.config/Antigravity/User/globalStorage/state.vscdb''"
  by (simp_all add: includesStr_sublist [symmetric] bslash_def)

lemma win32_path_no_slash:
  assumes "normalizedDriveAbsolute home"
  shows "\<not> sublist ''AppData/Roaming'' (getAntigravityDbPath ''win32'' home)"
proof
  assume "sublist ''AppData/Roaming'' (getAntigravityDbPath ''win32'' home)"
  then have "set ''AppData/Roaming'' \<subseteq> set (getAntigravityDbPath ''win32'' home)"
    by (rule set_mono_sublist)
  then have "CHR ''/'' \<in> set (getAntigravityDbPath ''win32'' home)" by simp
  then show False
    using drive_home_no_slash [OF assms] by (simp add: path_win32 [OF assms] bslash_def)
qed

lemma markers_by_platform:
  assumes home: "if platform = ''win32'' then normalizedDriveAbsolute home
                 else normalizedAbsolute home \<or> home = ''/''"
    and m: "\<not> sublist ''Library/Application Support'' home"
      "\<not> sublist (''AppData'' @ bslash # ''Roaming'') home" "\<not> sublist ''.config'' home"
  shows "(sublist ''Library/Application Support'' (getAntigravityDbPath platform home)
           \<longleftrightarrow> platform = ''darwin'') \<and>
         (sublist (''AppData'' @ bslash # ''Roaming'') (getAntigravityDbPath platform home)
           \<longleftrightarrow> platform = ''win32'') \<and>
         (sublist ''.config'' (getAntigravityDbPath platform home)
           \<longleftrightarrow> platform \<noteq> ''darwin'' \<and> platform \<noteq> ''win32'')"
proof -
  consider (darwin) "platform = ''darwin''" "normalizedAbsolute home"
    | (darwin_root) "platform = ''darwin''" "home = ''/''"
    | (win32) "platform = ''win32''" "normalizedDriveAbsolute home"
    | (other) "platform \<noteq> ''darwin''" "platform \<noteq> ''win32''" "normalizedAbsolute home"
    | (other_root) "platform \<noteq> ''darwin''" "platform \<noteq> ''win32''" "home = ''/''"
    using home by (cases "platform = ''win32''"; cases "platform = ''darwin''") auto
  then show ?thesis
  proof cases
    case darwin
    have p: "\<not> prefix ''Application Support''
        ''Library/Application Support/Antigravity/User/globalStorage/state.vscdb''"
      by simp
    show ?thesis
      unfolding darwin(1) path_darwin [OF darwin(2)] markers_posix [OF m p]
      using relative_path_markers(1-3) by simp
  next
    case darwin_root
    show ?thesis
      unfolding darwin_root path_root(1) using root_path_markers(1-3) by simp
  next
    case win32
    have p: "\<not> prefix ''Roaming'' (joinSep bslash
        [''AppData'', ''Roaming'', ''Antigravity'', ''User'', ''globalStorage'', ''state.vscdb''])"
      by simp
    show ?thesis
      unfolding win32(1) path_win32 [OF win32(2)] markers_win32 [OF m p]
      using relative_path_markers(7-9) by simp
  next
    case other
    have p: "\<not> prefix ''Application Support''
        ''.config/Antigravity/User/globalStorage/state.vscdb''"
      by simp
    show ?thesis
      unfolding path_other [OF other] markers_posix [OF m p]
      using relative_path_markers(4-6) other(1,2) by simp
  next
    case other_root
    show ?thesis
      unfolding other_root(3) path_root(2) [OF other_root(1,2)]
      using root_path_markers(4-6) other_root(1,2) by simp
  qed
qed


subsection \<open>Reading the configuration\<close>

text \<open>
  What \<open>config?.key || default\<close> exports, for every configuration: the supplied value when
  it is truthy, the default when the key is missing or its value is falsy, and the default
  when the configuration is \<open>undefined\<close> or \<open>null\<close>.
\<close>

lemma js_or_opt_member:
  "js_or (opt_member (JObj ps) key) d =
     (case map_of ps key of None \<Rightarrow> d | Some v \<Rightarrow> if truthy v then v else d)"
  by (simp add: js_or_def split: option.split)

lemma js_or_absent:
  "js_or (opt_member JUndefined key) d = d" "js_or (opt_member JNull key) d = d"
  by (simp_all add: js_or_def)

lemma default_numbers: "(5 * 60 * 1000 :: int) = 300000" "(10 * 1000 :: int) = 10000"
  by simp_all

lemmas config_defs =
  TOKEN_REFRESH_INTERVAL_MS_def REQUEST_BODY_LIMIT_def DEFAULT_PORT_def ACCOUNT_CONFIG_PATH_def
  DEFAULT_COOLDOWN_MS_def MAX_RETRIES_def MAX_ACCOUNTS_def MAX_WAIT_BEFORE_ERROR_MS_def

lemma configurable_constants:
  "TOKEN_REFRESH_INTERVAL_MS (JObj ps) =
     (case map_of ps ''tokenCacheTtlMs'' of
        None \<Rightarrow> JNum 300000 | Some v \<Rightarrow> if truthy v then v else JNum 300000) \<and>
   REQUEST_BODY_LIMIT (JObj ps) =
     (case map_of ps ''requestBodyLimit'' of
        None \<Rightarrow> JStr ''50mb'' | Some v \<Rightarrow> if truthy v then v else JStr ''50mb'') \<and>
   DEFAULT_COOLDOWN_MS (JObj ps) =
     (case map_of ps ''defaultCooldownMs'' of
        None \<Rightarrow> JNum 10000 | Some v \<Rightarrow> if truthy v then v else JNum 10000) \<and>
   MAX_RETRIES (JObj ps) =
     (case map_of ps ''maxRetries'' of
        None \<Rightarrow> JNum 5 | Some v \<Rightarrow> if truthy v then v else JNum 5) \<and>
   MAX_ACCOUNTS (JObj ps) =
     (case map_of ps ''maxAccounts'' of
        None \<Rightarrow> JNum 10 | Some v \<Rightarrow> if truthy v then v else JNum 10) \<and>
   MAX_WAIT_BEFORE_ERROR_MS (JObj ps) =
     (case map_of ps ''maxWaitBeforeErrorMs'' of
        None \<Rightarrow> JNum 120000 | Some v \<Rightarrow> if truthy v then v else JNum 120000) \<and>
   DEFAULT_PORT (JObj ps) =
     (case map_of ps ''port'' of
        None \<Rightarrow> JNum 8080 | Some v \<Rightarrow> if truthy v then v else JNum 8080) \<and>
   ACCOUNT_CONFIG_PATH (JObj ps) platform home =
     (case map_of ps ''accountConfigPath'' of
        None \<Rightarrow> JStr (join platform [home, ''.config/antigravity-proxy/accounts.json''])
      | Some v \<Rightarrow>
          if truthy v then v
          else JStr (join platform [home, ''.config/antigravity-proxy/accounts.json''])) \<and>
   map (\<lambda>c. c JUndefined)
     [TOKEN_REFRESH_INTERVAL_MS, REQUEST_BODY_LIMIT, DEFAULT_COOLDOWN_MS, MAX_RETRIES,
      MAX_ACCOUNTS, MAX_WAIT_BEFORE_ERROR_MS, DEFAULT_PORT] =
     [JNum 300000, JStr ''50mb'', JNum 10000, JNum 5, JNum 10, JNum 120000, JNum 8080] \<and>
   map (\<lambda>c. c JNull)
     [TOKEN_REFRESH_INTERVAL_MS, REQUEST_BODY_LIMIT, DEFAULT_COOLDOWN_MS, MAX_RETRIES,
      MAX_ACCOUNTS, MAX_WAIT_BEFORE_ERROR_MS, DEFAULT_PORT] =
     [JNum 300000, JStr ''50mb'', JNum 10000, JNum 5, JNum 10, JNum 120000, JNum 8080] \<and>
   ACCOUNT_CONFIG_PATH JUndefined platform home =
     JStr (join platform [home, ''.config/antigravity-proxy/accounts.json'']) \<and>
   ACCOUNT_CONFIG_PATH JNull platform home =
     JStr (join platform [home, ''.config/antigravity-proxy/accounts.json''])"
  unfolding config_defs js_or_opt_member list.map js_or_absent default_numbers
  by (intro conjI refl)

section \<open>Family classification\<close>

text \<open>
  C2. For every model-name string, \<open>getModelFamily\<close> lower-cases the name and returns
  \<open>'claude'\<close> if the lower-cased name contains \<open>claude\<close>, else \<open>'gemini'\<close> if it contains
  \<open>gemini\<close>, else \<open>'unknown'\<close>. In particular a name that (case-insensitively) contains
  \<open>claude\<close> and not \<open>gemini\<close> is classified \<open>'claude'\<close>, and one that contains \<open>gemini\<close>
  and not \<open>claude\<close> is classified \<open>'gemini'\<close>. Containment is \<open>sublist\<close>: the pattern
  stands somewhere in the string.
\<close>

theorem getModelFamily_by_substring:
  "getModelFamily unicodeLower (JStr name) =
     Inr (if sublist ''claude'' (toLowerCase unicodeLower name) then ''claude''
          else if sublist ''gemini'' (toLowerCase unicodeLower name) then ''gemini''
          else ''unknown'') \<and>
   (sublist ''claude'' (toLowerCase unicodeLower name) \<and> \<not> sublist ''gemini'' (toLowerCase unicodeLower name)
      \<longrightarrow> getModelFamily unicodeLower (JStr name) = Inr ''claude'') \<and>
   (sublist ''gemini'' (toLowerCase unicodeLower name) \<and> \<not> sublist ''claude'' (toLowerCase unicodeLower name)
      \<longrightarrow> getModelFamily unicodeLower (JStr name) = Inr ''gemini'')"
  by (simp add: getModelFamily_def lowerName_JStr includesStr_sublist)

theorem getModelFamily_by_substring_witness:
  "getModelFamily id (JStr ''Claude-Opus-4-5'') = Inr ''claude'' \<and>
   getModelFamily id (JStr ''GEMINI-3-flash'') = Inr ''gemini''"
proof -
  have c: "sublist ''claude'' (toLowerCase id ''Claude-Opus-4-5'') \<and>
           \<not> sublist ''gemini'' (toLowerCase id ''Claude-Opus-4-5'')"
    by (simp add: includesStr_sublist [symmetric] lower_eval)
  have g: "sublist ''gemini'' (toLowerCase id ''GEMINI-3-flash'') \<and>
           \<not> sublist ''claude'' (toLowerCase id ''GEMINI-3-flash'')"
    by (simp add: includesStr_sublist [symmetric] lower_eval)
  from c g getModelFamily_by_substring [of id "''Claude-Opus-4-5''"]
    getModelFamily_by_substring [of id "''GEMINI-3-flash''"]
  show ?thesis by blast
qed

text \<open>
  C8. Both classifiers return a value, never an error, for every string and for \<open>null\<close> and
  \<open>undefined\<close>: the empty string, \<open>null\<close> and \<open>undefined\<close> classify as \<open>'unknown'\<close> and not
  thinking, and so does every string whose lower-cased form contains neither \<open>claude\<close> nor
  \<open>gemini\<close>.
\<close>

theorem classifiers_total_unknown:
  "getModelFamily unicodeLower (JStr []) = Inr ''unknown'' \<and> isThinkingModel unicodeLower (JStr []) = Inr False \<and>
   getModelFamily unicodeLower JNull = Inr ''unknown'' \<and> isThinkingModel unicodeLower JNull = Inr False \<and>
   getModelFamily unicodeLower JUndefined = Inr ''unknown'' \<and> isThinkingModel unicodeLower JUndefined = Inr False \<and>
   getModelFamily unicodeLower (JStr name) \<noteq> Inl e \<and> isThinkingModel unicodeLower (JStr name) \<noteq> Inl e \<and>
   (\<not> sublist ''claude'' (toLowerCase unicodeLower name) \<and> \<not> sublist ''gemini'' (toLowerCase unicodeLower name)
      \<longrightarrow> getModelFamily unicodeLower (JStr name) = Inr ''unknown'' \<and>
          isThinkingModel unicodeLower (JStr name) = Inr False)"
  by (simp add: getModelFamily_def isThinkingModel_def lowerName_JStr lowerName_JNull
      lowerName_JUndefined includesStr_sublist toLowerCase_Nil split: option.split)

theorem classifiers_total_unknown_witness:
  "getModelFamily id (JStr ''GPT-4o'') = Inr ''unknown'' \<and>
   isThinkingModel id (JStr ''GPT-4o'') = Inr False"
proof -
  have "\<not> sublist ''claude'' (toLowerCase id ''GPT-4o'') \<and>
        \<not> sublist ''gemini'' (toLowerCase id ''GPT-4o'')"
    by (simp add: includesStr_sublist [symmetric] lower_eval)
  with classifiers_total_unknown [of id "''GPT-4o''"] show ?thesis by blast
qed

text \<open>
  C10. Thinking implies a known family: whatever the argument (a string, \<open>null\<close>,
  \<open>undefined\<close> or anything else), if \<open>isThinkingModel\<close> returns true then \<open>getModelFamily\<close>
  of the same argument returns \<open>'claude'\<close> or \<open>'gemini'\<close>, never \<open>'unknown'\<close>.
\<close>

theorem thinking_implies_known_family:
  assumes "isThinkingModel unicodeLower modelName = Inr True"
  shows "getModelFamily unicodeLower modelName = Inr ''claude'' \<or> getModelFamily unicodeLower modelName = Inr ''gemini''"
  using assms
  by (auto simp: getModelFamily_def isThinkingModel_def split: sum.splits if_splits)

theorem thinking_implies_known_family_witness:
  "isThinkingModel id (JStr ''gemini-3-pro-high'') = Inr True \<and>
   getModelFamily id (JStr ''gemini-3-pro-high'') = Inr ''gemini''"
proof -
  have t: "isThinkingModel id (JStr ''gemini-3-pro-high'') = Inr True"
    by (simp add: classify_eval)
  have "getModelFamily id (JStr ''gemini-3-pro-high'') \<noteq> Inr ''claude''"
    by (simp add: classify_eval)
  with thinking_implies_known_family [OF t] t show ?thesis by blast
qed

section \<open>Thinking capability\<close>

text \<open>
  C1 (as amended). For every model-name string, \<open>isThinkingModel\<close> returns true exactly
  when the lower-cased name contains both \<open>claude\<close> and \<open>thinking\<close>, or contains
  \<open>gemini\<close> and either contains \<open>thinking\<close> or has, as its leftmost marker
  \<open>gemini-<digits>\<close>, one whose whole run of digits parses to an integer of at least 3:
  no marker starts further left, and the run of digits is not followed by another digit.
  The five names of the claim evaluate as it says.
\<close>

theorem isThinkingModel_first_marker:
  "isThinkingModel unicodeLower (JStr name) =
     Inr ((sublist ''claude'' (toLowerCase unicodeLower name) \<and> sublist ''thinking'' (toLowerCase unicodeLower name)) \<or>
          (sublist ''gemini'' (toLowerCase unicodeLower name) \<and>
             (sublist ''thinking'' (toLowerCase unicodeLower name) \<or>
              (\<exists>pre ds post n.
                 toLowerCase unicodeLower name = pre @ ''gemini-'' @ ds @ post \<and>
                 ds \<noteq> [] \<and> list_all isDigit ds \<and> takeWhile isDigit post = [] \<and>
                 (\<forall>p q. toLowerCase unicodeLower name = p @ q \<and> length p < length pre \<longrightarrow>
                    \<not> (\<exists>d r. isDigit d \<and> q = ''gemini-'' @ d # r)) \<and>
                 parseInt ds = Some n \<and> 3 \<le> n)))) \<and>
   isThinkingModel unicodeLower (JStr ''gemini-3-pro-high'') = Inr True \<and>
   isThinkingModel unicodeLower (JStr ''gemini-2.5-pro'') = Inr False \<and>
   isThinkingModel unicodeLower (JStr ''gemini-3.5-flash-thinking'') = Inr True \<and>
   isThinkingModel unicodeLower (JStr ''claude-opus-4-5-thinking'') = Inr True \<and>
   isThinkingModel unicodeLower (JStr ''claude-opus-4-5'') = Inr False"
proof -
  have ex: "isThinkingModel unicodeLower (JStr ''gemini-3-pro-high'') = Inr True"
    "isThinkingModel unicodeLower (JStr ''gemini-2.5-pro'') = Inr False"
    "isThinkingModel unicodeLower (JStr ''gemini-3.5-flash-thinking'') = Inr True"
    "isThinkingModel unicodeLower (JStr ''claude-opus-4-5-thinking'') = Inr True"
    "isThinkingModel unicodeLower (JStr ''claude-opus-4-5'') = Inr False"
    by (simp_all add: classify_eval)
  show ?thesis
    unfolding version_at_least_3 [symmetric] using isThinkingModel_JStr [of unicodeLower name] ex by simp
qed

theorem isThinkingModel_first_marker_witness:
  "isThinkingModel id (JStr ''Gemini-3-Pro-High'') = Inr True"
proof -
  have l: "toLowerCase id ''Gemini-3-Pro-High'' = ''gemini-3-pro-high''"
    by (simp add: lower_eval)
  have g: "sublist ''gemini'' ''gemini-3-pro-high''"
    by (simp add: includesStr_sublist [symmetric])
  have "''gemini-3-pro-high'' = [] @ ''gemini-'' @ ''3'' @ ''-pro-high'' \<and>
        ''3'' \<noteq> [] \<and> list_all isDigit ''3'' \<and> takeWhile isDigit ''-pro-high'' = [] \<and>
        (\<forall>p q. ''gemini-3-pro-high'' = p @ q \<and> length p < length ([]::string) \<longrightarrow>
           \<not> (\<exists>d r. isDigit d \<and> q = ''gemini-'' @ d # r)) \<and>
        parseInt ''3'' = Some 3 \<and> (3::nat) \<le> 3"
    by (simp add: isDigit_def parseInt_def digitVal_def)
  then have "\<exists>pre ds post n.
      ''gemini-3-pro-high'' = pre @ ''gemini-'' @ ds @ post \<and>
      ds \<noteq> [] \<and> list_all isDigit ds \<and> takeWhile isDigit post = [] \<and>
      (\<forall>p q. ''gemini-3-pro-high'' = p @ q \<and> length p < length pre \<longrightarrow>
         \<not> (\<exists>d r. isDigit d \<and> q = ''gemini-'' @ d # r)) \<and>
      parseInt ds = Some n \<and> 3 \<le> n"
    by blast
  with g l isThinkingModel_first_marker [of id "''Gemini-3-Pro-High''"]
  show ?thesis by simp
qed

text \<open>
  The claim as stated asks for some marker with an integer of at least 3. The name
  \<open>gemini-2-gemini-3\<close> contains \<open>gemini\<close> and the marker \<open>gemini-3\<close>, yet the match is
  the leftmost marker \<open>gemini-2\<close> and the result is false.
\<close>

theorem isThinkingModel_later_marker_counterexample:
  "isThinkingModel id (JStr ''gemini-2-gemini-3'') = Inr False \<and>
   sublist ''gemini'' (toLowerCase id ''gemini-2-gemini-3'') \<and>
   toLowerCase id ''gemini-2-gemini-3'' = ''gemini-2-'' @ ''gemini-'' @ ''3'' \<and>
   parseInt ''3'' = Some 3"
  by (simp add: classify_eval includesStr_sublist [symmetric])

text \<open>
  C4 (as amended). For every model-name string classified \<open>'claude'\<close>, \<open>isThinkingModel\<close>
  returns true if and only if the lower-cased name contains \<open>thinking\<close>, or contains
  \<open>gemini\<close> and has a leftmost marker \<open>gemini-<digits>\<close> whose run of digits parses to an
  integer of at least 3. The version check is guarded by the substring \<open>gemini\<close>, not by
  the family: for a name of family claude whose lower-cased form does not contain
  \<open>gemini\<close> it never fires, and \<open>isThinkingModel\<close> is exactly "contains \<open>thinking\<close>".
\<close>

theorem claude_family_thinking:
  "(getModelFamily unicodeLower (JStr name) = Inr ''claude'' \<longrightarrow>
      (isThinkingModel unicodeLower (JStr name) = Inr True \<longleftrightarrow>
         sublist ''thinking'' (toLowerCase unicodeLower name) \<or>
         (sublist ''gemini'' (toLowerCase unicodeLower name) \<and>
          (\<exists>pre ds post n.
             toLowerCase unicodeLower name = pre @ ''gemini-'' @ ds @ post \<and>
             ds \<noteq> [] \<and> list_all isDigit ds \<and> takeWhile isDigit post = [] \<and>
             (\<forall>p q. toLowerCase unicodeLower name = p @ q \<and> length p < length pre \<longrightarrow>
                \<not> (\<exists>d r. isDigit d \<and> q = ''gemini-'' @ d # r)) \<and>
             parseInt ds = Some n \<and> 3 \<le> n)))) \<and>
   (getModelFamily unicodeLower (JStr name) = Inr ''claude'' \<and>
    \<not> sublist ''gemini'' (toLowerCase unicodeLower name) \<longrightarrow>
      (isThinkingModel unicodeLower (JStr name) = Inr True \<longleftrightarrow>
         sublist ''thinking'' (toLowerCase unicodeLower name)))"
proof -
  have c: "getModelFamily unicodeLower (JStr name) = Inr ''claude'' \<longleftrightarrow>
      sublist ''claude'' (toLowerCase unicodeLower name)"
    by (simp add: getModelFamily_def lowerName_JStr includesStr_sublist)
  show ?thesis
    unfolding version_at_least_3 [symmetric] c
    using isThinkingModel_JStr [of unicodeLower name] by auto
qed

theorem claude_family_thinking_witness:
  "getModelFamily id (JStr ''claude-opus-4-5-thinking'') = Inr ''claude'' \<and>
   isThinkingModel id (JStr ''claude-opus-4-5-thinking'') = Inr True \<and>
   getModelFamily id (JStr ''claude-opus-4-5'') = Inr ''claude'' \<and>
   isThinkingModel id (JStr ''claude-opus-4-5'') \<noteq> Inr True"
proof -
  have a: "getModelFamily id (JStr ''claude-opus-4-5-thinking'') = Inr ''claude''"
    "getModelFamily id (JStr ''claude-opus-4-5'') = Inr ''claude''"
    by (simp_all add: classify_eval)
  have b: "sublist ''thinking'' (toLowerCase id ''claude-opus-4-5-thinking'')"
    "\<not> sublist ''thinking'' (toLowerCase id ''claude-opus-4-5'')"
    "\<not> sublist ''gemini'' (toLowerCase id ''claude-opus-4-5'')"
    by (simp_all add: lower_eval includesStr_sublist [symmetric])
  from a b claude_family_thinking [of id "''claude-opus-4-5-thinking''"]
    claude_family_thinking [of id "''claude-opus-4-5''"]
  show ?thesis by blast
qed

text \<open>
  A name that contains both substrings is of family claude and still has its version
  inspected: \<open>claude-gemini-3\<close> is a thinking model without \<open>thinking\<close> in its name.
\<close>

theorem claude_family_version_check_counterexample:
  "getModelFamily id (JStr ''claude-gemini-3'') = Inr ''claude'' \<and>
   isThinkingModel id (JStr ''claude-gemini-3'') = Inr True \<and>
   \<not> sublist ''thinking'' (toLowerCase id ''claude-gemini-3'')"
  by (simp add: classify_eval includesStr_sublist [symmetric])

section \<open>Fallback tables\<close>

text \<open>
  C6. The model fallback map has exactly six entries, under six different keys. Each entry
  crosses the families: a key of family gemini maps to a model of family claude, and a key
  of family claude to a model of family gemini. It holds the round-trip pair
  \<open>gemini-3-pro-high\<close> to \<open>claude-opus-4-5-thinking\<close> and back.
\<close>

theorem model_fallback_map_shape:
  "length MODEL_FALLBACK_MAP = 6 \<and> distinct (map fst MODEL_FALLBACK_MAP) \<and>
   list_all
     (\<lambda>(k, v). getModelFamily unicodeLower (JStr k) = Inr ''gemini'' \<and> getModelFamily unicodeLower (JStr v) = Inr ''claude'')
     (take 3 MODEL_FALLBACK_MAP) \<and>
   list_all
     (\<lambda>(k, v). getModelFamily unicodeLower (JStr k) = Inr ''claude'' \<and> getModelFamily unicodeLower (JStr v) = Inr ''gemini'')
     (drop 3 MODEL_FALLBACK_MAP) \<and>
   fallbackOf ''gemini-3-pro-high'' = Some ''claude-opus-4-5-thinking'' \<and>
   fallbackOf ''claude-opus-4-5-thinking'' = Some ''gemini-3-pro-high''"
  by (simp add: MODEL_FALLBACK_MAP_def fallbackOf_def getModelFamily_def lowerName_JStr
      lower_eval)

text \<open>
  C9. The model fallback map is closed under one hop: the substitute of a mapped model has a
  substitute of its own, every value of the map being one of its keys. The map holds a
  cycle of length two, so a walk along it need never end.
\<close>

theorem model_fallback_map_closed:
  "(fallbackOf k = Some v \<longrightarrow> (\<exists>w. fallbackOf v = Some w)) \<and>
   set (map snd MODEL_FALLBACK_MAP) \<subseteq> set (map fst MODEL_FALLBACK_MAP) \<and>
   fallbackOf ''gemini-3-flash'' = Some ''claude-sonnet-4-5-thinking'' \<and>
   fallbackOf ''claude-sonnet-4-5-thinking'' = Some ''gemini-3-flash''"
  by (auto simp: fallbackOf_def MODEL_FALLBACK_MAP_def split: if_splits)

theorem model_fallback_map_closed_witness:
  "fallbackOf ''gemini-3-pro-low'' = Some ''claude-sonnet-4-5'' \<and>
   fallbackOf ''claude-sonnet-4-5'' = Some ''gemini-3-flash''"
proof -
  have k: "fallbackOf ''gemini-3-pro-low'' = Some ''claude-sonnet-4-5''"
    by (simp add: fallbackOf_def MODEL_FALLBACK_MAP_def)
  with model_fallback_map_closed [of "''gemini-3-pro-low''" "''claude-sonnet-4-5''"]
  obtain w where w: "fallbackOf ''claude-sonnet-4-5'' = Some w" by blast
  moreover have "w = ''gemini-3-flash''"
    using w by (simp add: fallbackOf_def MODEL_FALLBACK_MAP_def)
  ultimately show ?thesis using k by simp
qed

text \<open>
  C7. The endpoint fallback list has exactly two entries, in the order they are tried: the
  daily host first, the production host second. Its first entry is not the production host.
\<close>

theorem endpoint_fallbacks_order:
  "ANTIGRAVITY_ENDPOINT_FALLBACKS =
     [''https://daily-cloudcode-pa.googleapis.com'', ''https://cloudcode-pa.googleapis.com''] \<and>
   length ANTIGRAVITY_ENDPOINT_FALLBACKS = 2 \<and>
   hd ANTIGRAVITY_ENDPOINT_FALLBACKS = ANTIGRAVITY_ENDPOINT_DAILY \<and>
   ANTIGRAVITY_ENDPOINT_FALLBACKS ! 1 = ANTIGRAVITY_ENDPOINT_PROD \<and>
   hd ANTIGRAVITY_ENDPOINT_FALLBACKS \<noteq> ANTIGRAVITY_ENDPOINT_PROD"
  by (simp add: ANTIGRAVITY_ENDPOINT_FALLBACKS_def ANTIGRAVITY_ENDPOINT_DAILY_def
      ANTIGRAVITY_ENDPOINT_PROD_def)

section \<open>The credential store path\<close>

text \<open>
  C5 (as amended). \<open>getAntigravityDbPath\<close> is a total function of the platform and the home
  directory. For a home directory that is a normalised absolute path it returns
  \<open><home>/Library/Application Support/Antigravity/User/globalStorage/state.vscdb\<close> on
  \<open>darwin\<close> and \<open><home>/.config/Antigravity/User/globalStorage/state.vscdb\<close> on every
  platform other than \<open>darwin\<close> and \<open>win32\<close>; when the home directory is the root \<open>/\<close> the
  path is \<open>/\<close> and the same relative path. On \<open>win32\<close>, for a home directory on a drive,
  \<open>path.join\<close> writes every separator as a backslash: the path is the home directory
  followed by \<open>AppData\<close>, \<open>Roaming\<close>, \<open>Antigravity\<close>, \<open>User\<close>, \<open>globalStorage\<close> and
  \<open>state.vscdb\<close>, each after a backslash, and it does not contain \<open>AppData/Roaming\<close>. When
  the home directory itself contains none of the three markers, the path contains
  \<open>Library/Application Support\<close> exactly on \<open>darwin\<close>, \<open>AppData\<close> backslash \<open>Roaming\<close>
  exactly on \<open>win32\<close>, and \<open>.config\<close> exactly on the other platforms.
\<close>

theorem getAntigravityDbPath_by_platform:
  "(normalizedAbsolute home \<longrightarrow>
      getAntigravityDbPath ''darwin'' home =
        home @ ''/Library/Application Support/Antigravity/User/globalStorage/state.vscdb'') \<and>
   (normalizedDriveAbsolute home \<longrightarrow>
      getAntigravityDbPath ''win32'' home =
        home @ bslash # joinSep bslash
          [''AppData'', ''Roaming'', ''Antigravity'', ''User'', ''globalStorage'',
           ''state.vscdb''] \<and>
      \<not> sublist ''AppData/Roaming'' (getAntigravityDbPath ''win32'' home)) \<and>
   (platform \<noteq> ''darwin'' \<and> platform \<noteq> ''win32'' \<and> normalizedAbsolute home \<longrightarrow>
      getAntigravityDbPath platform home =
        home @ ''/.config/Antigravity/User/globalStorage/state.vscdb'') \<and>
   getAntigravityDbPath ''darwin'' ''/'' =
     ''/Library/Application Support/Antigravity/User/globalStorage/state.vscdb'' \<and>
   (platform \<noteq> ''darwin'' \<and> platform \<noteq> ''win32'' \<longrightarrow>
      getAntigravityDbPath platform ''/'' =
        ''/.config/Antigravity/User/globalStorage/state.vscdb'') \<and>
   ((if platform = ''win32'' then normalizedDriveAbsolute home
     else normalizedAbsolute home \<or> home = ''/'') \<and>
    \<not> sublist ''Library/Application Support'' home \<and>
    \<not> sublist (''AppData'' @ bslash # ''Roaming'') home \<and>
    \<not> sublist ''.config'' home \<longrightarrow>
      (sublist ''Library/Application Support'' (getAntigravityDbPath platform home)
         \<longleftrightarrow> platform = ''darwin'') \<and>
      (sublist (''AppData'' @ bslash # ''Roaming'') (getAntigravityDbPath platform home)
         \<longleftrightarrow> platform = ''win32'') \<and>
      (sublist ''.config'' (getAntigravityDbPath platform home)
         \<longleftrightarrow> platform \<noteq> ''darwin'' \<and> platform \<noteq> ''win32''))"
proof (intro conjI impI)
  show "getAntigravityDbPath ''darwin'' home =
      home @ ''/Library/Application Support/Antigravity/User/globalStorage/state.vscdb''"
    if "normalizedAbsolute home"
    using path_darwin [OF that] by simp
  show "getAntigravityDbPath ''win32'' home =
      home @ bslash # joinSep bslash
        [''AppData'', ''Roaming'', ''Antigravity'', ''User'', ''globalStorage'', ''state.vscdb'']"
    if "normalizedDriveAbsolute home"
    by (rule path_win32 [OF that])
  show "\<not> sublist ''AppData/Roaming'' (getAntigravityDbPath ''win32'' home)"
    if "normalizedDriveAbsolute home"
    by (rule win32_path_no_slash [OF that])
  show "getAntigravityDbPath platform home =
      home @ ''/.config/Antigravity/User/globalStorage/state.vscdb''"
    if "platform \<noteq> ''darwin'' \<and> platform \<noteq> ''win32'' \<and> normalizedAbsolute home"
    using path_other [of platform home] that by simp
  show "getAntigravityDbPath ''darwin'' ''/'' =
      ''/Library/Application Support/Antigravity/User/globalStorage/state.vscdb''"
    by (rule path_root(1))
  show "getAntigravityDbPath platform ''/'' =
      ''/.config/Antigravity/User/globalStorage/state.vscdb''"
    if "platform \<noteq> ''darwin'' \<and> platform \<noteq> ''win32''"
    using path_root(2) [of platform] that by simp
next
  assume a: "(if platform = ''win32'' then normalizedDriveAbsolute home
     else normalizedAbsolute home \<or> home = ''/'') \<and>
    \<not> sublist ''Library/Application Support'' home \<and>
    \<not> sublist (''AppData'' @ bslash # ''Roaming'') home \<and>
    \<not> sublist ''.config'' home"
  then have "(sublist ''Library/Application Support'' (getAntigravityDbPath platform home)
           \<longleftrightarrow> platform = ''darwin'') \<and>
         (sublist (''AppData'' @ bslash # ''Roaming'') (getAntigravityDbPath platform home)
           \<longleftrightarrow> platform = ''win32'') \<and>
         (sublist ''.config'' (getAntigravityDbPath platform home)
           \<longleftrightarrow> platform \<noteq> ''darwin'' \<and> platform \<noteq> ''win32'')"
    by (intro markers_by_platform) simp_all
  then show "sublist ''Library/Application Support'' (getAntigravityDbPath platform home)
         \<longleftrightarrow> platform = ''darwin''"
    and "sublist (''AppData'' @ bslash # ''Roaming'') (getAntigravityDbPath platform home)
         \<longleftrightarrow> platform = ''win32''"
    and "sublist ''.config'' (getAntigravityDbPath platform home)
         \<longleftrightarrow> platform \<noteq> ''darwin'' \<and> platform \<noteq> ''win32''"
    by blast+
qed

theorem getAntigravityDbPath_by_platform_witness:
  "getAntigravityDbPath ''linux'' ''/home/u'' =
     ''/home/u/.config/Antigravity/User/globalStorage/state.vscdb'' \<and>
   sublist ''.config'' (getAntigravityDbPath ''linux'' ''/home/u'') \<and>
   \<not> sublist ''Library/Application Support'' (getAntigravityDbPath ''linux'' ''/home/u'') \<and>
   getAntigravityDbPath ''darwin'' ''/Users/u'' =
     ''/Users/u/Library/Application Support/Antigravity/User/globalStorage/state.vscdb'' \<and>
   getAntigravityDbPath ''win32'' (''C:'' @ bslash # ''Users'' @ bslash # ''u'') =
     joinSep bslash
       [''C:'', ''Users'', ''u'', ''AppData'', ''Roaming'', ''Antigravity'', ''User'',
        ''globalStorage'', ''state.vscdb'']"
proof -
  have h: "normalizedAbsolute ''/home/u''" "normalizedAbsolute ''/Users/u''"
    "normalizedDriveAbsolute (''C:'' @ bslash # ''Users'' @ bslash # ''u'')"
    by (simp_all add: normalizedAbsolute_def normalizedDriveAbsolute_def plainSegment_def
        isPosixPathSeparator_def isPathSeparator_def isWindowsDeviceRoot_def bslash_def)
  have m: "\<not> sublist ''Library/Application Support'' ''/home/u'' \<and>
    \<not> sublist (''AppData'' @ bslash # ''Roaming'') ''/home/u'' \<and>
    \<not> sublist ''.config'' ''/home/u''"
    by (simp add: includesStr_sublist [symmetric] bslash_def)
  have e: "''linux'' \<noteq> ''darwin'' \<and> ''linux'' \<noteq> ''win32''" by simp
  note l = getAntigravityDbPath_by_platform [of "''/home/u''" "''linux''"]
  from e h(1) have "''linux'' \<noteq> ''darwin'' \<and> ''linux'' \<noteq> ''win32'' \<and>
      normalizedAbsolute ''/home/u''"
    by simp
  note 1 = l [THEN conjunct2, THEN conjunct2, THEN conjunct1, THEN mp, OF this]
  have c: "if ''linux'' = ''win32'' then normalizedDriveAbsolute ''/home/u''
      else normalizedAbsolute ''/home/u'' \<or> ''/home/u'' = ''/''"
    using h(1) by simp
  note markers = l [THEN conjunct2, THEN conjunct2, THEN conjunct2, THEN conjunct2,
      THEN conjunct2, THEN mp, OF conjI [OF c m]]
  from markers have 2: "sublist ''.config'' (getAntigravityDbPath ''linux'' ''/home/u'') \<and>
     \<not> sublist ''Library/Application Support'' (getAntigravityDbPath ''linux'' ''/home/u'')"
    by simp
  note 3 = getAntigravityDbPath_by_platform
    [of "''/Users/u''" "''darwin''", THEN conjunct1, THEN mp, OF h(2)]
  note 4 = getAntigravityDbPath_by_platform
    [of "''C:'' @ bslash # ''Users'' @ bslash # ''u''" "''win32''", THEN conjunct2,
      THEN conjunct1, THEN mp, OF h(3), THEN conjunct1]
  from 1 3 4 have
    "getAntigravityDbPath ''linux'' ''/home/u'' =
       ''/home/u/.config/Antigravity/User/globalStorage/state.vscdb'' \<and>
     getAntigravityDbPath ''darwin'' ''/Users/u'' =
       ''/Users/u/Library/Application Support/Antigravity/User/globalStorage/state.vscdb'' \<and>
     getAntigravityDbPath ''win32'' (''C:'' @ bslash # ''Users'' @ bslash # ''u'') =
       joinSep bslash
         [''C:'', ''Users'', ''u'', ''AppData'', ''Roaming'', ''Antigravity'', ''User'',
          ''globalStorage'', ''state.vscdb'']"
    by simp
  with 2 show ?thesis by blast
qed

text \<open>
  The file is \<open>state.vscdb\<close>, not \<open>state.db\<close>. On Windows the separators of the path
  are backslashes, so \<open>AppData/Roaming\<close> is not in it. A marker that stands in the home
  directory stands in the path on every platform. For the home directory \<open>/\<close> the path
  starts with one \<open>/\<close>, not two; and a home directory that is not normalised, such as
  one with a trailing \<open>/\<close>, is normalised by \<open>path.join\<close>.
\<close>

theorem getAntigravityDbPath_counterexample:
  "getAntigravityDbPath ''darwin'' ''/Users/u'' =
     ''/Users/u/Library/Application Support/Antigravity/User/globalStorage/state.vscdb'' \<and>
   getAntigravityDbPath ''darwin'' ''/Users/u'' \<noteq>
     ''/Users/u/Library/Application Support/Antigravity/User/globalStorage/state.db'' \<and>
   getAntigravityDbPath ''win32'' (''C:'' @ bslash # ''Users'' @ bslash # ''u'') =
     joinSep bslash
       [''C:'', ''Users'', ''u'', ''AppData'', ''Roaming'', ''Antigravity'', ''User'',
        ''globalStorage'', ''state.vscdb''] \<and>
   \<not> sublist ''AppData/Roaming''
       (getAntigravityDbPath ''win32'' (''C:'' @ bslash # ''Users'' @ bslash # ''u'')) \<and>
   sublist ''.config'' (getAntigravityDbPath ''darwin'' ''/Users/u/.config'') \<and>
   getAntigravityDbPath ''linux'' ''/'' =
     ''/.config/Antigravity/User/globalStorage/state.vscdb'' \<and>
   getAntigravityDbPath ''linux'' ''/home/u/'' =
     ''/home/u/.config/Antigravity/User/globalStorage/state.vscdb''"
proof -
  have t: "getAntigravityDbPath ''linux'' ''/home/u/'' =
      ''/home/u/.config/Antigravity/User/globalStorage/state.vscdb''"
    by (simp add: getAntigravityDbPath_def join_def posix_join_def posix_normalize_def
        normalizeString_def isPosixPathSeparator_def)
  have h: "normalizedAbsolute ''/Users/u''" "normalizedAbsolute ''/Users/u/.config''"
    "normalizedDriveAbsolute (''C:'' @ bslash # ''Users'' @ bslash # ''u'')"
    by (simp_all add: normalizedAbsolute_def normalizedDriveAbsolute_def plainSegment_def
        isPosixPathSeparator_def isPathSeparator_def isWindowsDeviceRoot_def bslash_def)
  have "sublist ''.config'' (getAntigravityDbPath ''darwin'' ''/Users/u/.config'')"
    unfolding path_darwin [OF h(2)] by (simp add: includesStr_sublist [symmetric])
  then show ?thesis
    using path_darwin [OF h(1)] path_win32 [OF h(3)] win32_path_no_slash [OF h(3)]
      path_root(2) [of "''linux''"] t
    by simp
qed

section \<open>Configuration overrides\<close>

text \<open>
  C3. A supplied value is to win over the default, also when it is zero or another falsy
  value. The constants are computed with \<open>||\<close>, which takes the default whenever the
  supplied value is falsy: with \<open>maxRetries: 0\<close> in the configuration the exported
  \<open>MAX_RETRIES\<close> is 5, with \<open>defaultCooldownMs: 0\<close> the cooldown is 10000, with \<open>port: 0\<close>
  the port is 8080, and with an empty \<open>requestBodyLimit\<close> the limit is \<open>'50mb'\<close>.
\<close>

theorem falsy_override_takes_default:
  "MAX_RETRIES (JObj [(''maxRetries'', JNum 0)]) = JNum 5 \<and>
   MAX_RETRIES (JObj [(''maxRetries'', JNum 0)]) \<noteq> JNum 0 \<and>
   DEFAULT_COOLDOWN_MS (JObj [(''defaultCooldownMs'', JNum 0)]) = JNum 10000 \<and>
   DEFAULT_PORT (JObj [(''port'', JNum 0)]) = JNum 8080 \<and>
   REQUEST_BODY_LIMIT (JObj [(''requestBodyLimit'', JStr [])]) = JStr ''50mb''"
  by (simp add: config_defs js_or_def)

end
